theory Spec2Isabelle
  imports Complex_Main "HOL-Library.AList" "HOL-Library.Multiset"
begin

text \<open>
  A model of the component \<open>FoliumMexicoMap\<close> of \<open>visualizacion.js\<close>: the upload
  handler with its row filter, the grouping of the valid rows by region and polarity, the
  projection to view rows and statistics for the selected polarity, and the values of the
  circle markers of the generated map. Each function of the component is a function here,
  on an explicit record of the component's state.
\<close>

section \<open>JavaScript values as the CSV parser delivers them\<close>

text \<open>
  The parser is called with \<open>header: true\<close> and \<open>dynamicTyping: true\<close>: every row is
  an object keyed by the header names, and a field is \<open>null\<close> (empty text), a boolean, a
  number or a string; a field a short row lacks reads as \<open>undefined\<close>. A number is held
  by its exact value (every finite double is a rational; the parser delivers no infinite
  number and no NaN). A text in ISO date form, which the parser delivers as a date object,
  is left out of the model.
\<close>

datatype jsval = JUndefined | JNull | JBool bool | JNum rat | JStr string

text \<open>Truthiness, as \<open>&&\<close> and \<open>!\<close> test it.\<close>

fun truthy :: "jsval \<Rightarrow> bool" where
  "truthy JUndefined = False"
| "truthy JNull = False"
| "truthy (JBool b) = b"
| "truthy (JNum q) = (q \<noteq> 0)"
| "truthy (JStr s) = (s \<noteq> [])"

text \<open>
  The numeric value a relational operator compares (\<open>None\<close> is NaN). The numeric value
  of a string is the language's own conversion, which is no code of this repository: it is
  the parameter \<open>sn\<close>. (An infinite value may stand as \<open>None\<close> too: it fails one of the two
  comparisons of the row filter, as NaN fails both.)
\<close>

fun ToNumber :: "(string \<Rightarrow> rat option) \<Rightarrow> jsval \<Rightarrow> rat option" where
  "ToNumber sn JUndefined = None"
| "ToNumber sn JNull = Some 0"
| "ToNumber sn (JBool b) = Some (if b then 1 else 0)"
| "ToNumber sn (JNum q) = Some q"
| "ToNumber sn (JStr s) = sn s"

text \<open>\<open>v >= c\<close> and \<open>v <= c\<close> for a number \<open>c\<close>: false when \<open>v\<close> is NaN.\<close>

definition js_ge :: "(string \<Rightarrow> rat option) \<Rightarrow> jsval \<Rightarrow> rat \<Rightarrow> bool" where
  "js_ge sn v c = (case ToNumber sn v of None \<Rightarrow> False | Some q \<Rightarrow> c \<le> q)"

definition js_le :: "(string \<Rightarrow> rat option) \<Rightarrow> jsval \<Rightarrow> rat \<Rightarrow> bool" where
  "js_le sn v c = (case ToNumber sn v of None \<Rightarrow> False | Some q \<Rightarrow> q \<le> c)"

text \<open>
  A property key is the string form of the value used as the key. A number key is kept as
  the number: two numbers have the same string form only when they are equal, and under
  \<open>dynamicTyping\<close> no string field has the form of a number (it would have been
  delivered as that number).
\<close>

datatype pkey = KN rat | KS string

fun ToPropertyKey :: "jsval \<Rightarrow> pkey" where
  "ToPropertyKey JUndefined = KS ''undefined''"
| "ToPropertyKey JNull = KS ''null''"
| "ToPropertyKey (JBool b) = KS (if b then ''true'' else ''false'')"
| "ToPropertyKey (JNum q) = KN q"
| "ToPropertyKey (JStr s) = KS s"

text \<open>A parsed row, and the read of one of its fields (\<open>row.Region\<close>).\<close>

type_synonym row = "(string \<times> jsval) list"

definition field :: "row \<Rightarrow> string \<Rightarrow> jsval" where
  "field r name = (case map_of r name of None \<Rightarrow> JUndefined | Some v \<Rightarrow> v)"

text \<open>
  \<open>Object.entries\<close> lists the keys that are array indices (the integers from 0 to
  \<open>2\<^sup>3\<^sup>2 - 2\<close>) first, in ascending order, and then every other key in the order
  of its insertion. An object is held as the list of its properties in insertion order;
  \<open>AList.update\<close> overwrites in place and appends a new key, as an assignment does.
\<close>

fun is_array_index :: "pkey \<Rightarrow> bool" where
  "is_array_index (KN q) = (of_int \<lfloor>q\<rfloor> = q \<and> 0 \<le> q \<and> q < 4294967295)"
| "is_array_index (KS s) = False"

fun index_value :: "pkey \<Rightarrow> rat" where
  "index_value (KN q) = q"
| "index_value (KS s) = 0"

definition object_entries :: "(pkey \<times> 'v) list \<Rightarrow> (pkey \<times> 'v) list" where
  "object_entries obj =
     sort_key (\<lambda>e. index_value (fst e)) (filter (\<lambda>e. is_array_index (fst e)) obj)
     @ filter (\<lambda>e. \<not> is_array_index (fst e)) obj"

text \<open>
  The names every object literal inherits from \<open>Object.prototype\<close>: a read of such a
  key on \<open>{}\<close> yields a function (or, for \<open>__proto__\<close>, the prototype object), which
  is truthy.
\<close>

definition objectPrototypeNames :: "string list" where
  "objectPrototypeNames =
     [''constructor'', ''__defineGetter__'', ''__defineSetter__'', ''hasOwnProperty'',
      ''__lookupGetter__'', ''__lookupSetter__'', ''isPrototypeOf'',
      ''propertyIsEnumerable'', ''toString'', ''valueOf'', ''__proto__'',
      ''toLocaleString'']"

fun inherited :: "pkey \<Rightarrow> bool" where
  "inherited (KN q) = False"
| "inherited (KS s) = (s \<in> set objectPrototypeNames)"

section \<open>Double-precision arithmetic and number formatting\<close>

text \<open>
  A JavaScript number is an IEEE 754 double, and \<open>/\<close>, \<open>*\<close> and \<open>+\<close> return the
  exact result rounded to the nearest double, ties to the even significand.
  \<open>double q\<close> is that rounding of the exact value \<open>q\<close>: 53 significant bits, and the
  fixed spacing \<open>2\<^sup>-\<^sup>1\<^sup>0\<^sup>7\<^sup>4\<close> in the subnormal range. Overflow to infinity (from
  \<open>2\<^sup>1\<^sup>0\<^sup>2\<^sup>4\<close> on) is outside the model; the values met here are far below.
\<close>

fun log2floor :: "nat \<Rightarrow> nat" where
  "log2floor n = (if n < 2 then 0 else Suc (log2floor (n div 2)))"

declare log2floor.simps [simp del]

definition pow2 :: "int \<Rightarrow> rat" where
  "pow2 e = (if 0 \<le> e then 2 ^ nat e else 1 / 2 ^ nat (- e))"

text \<open>The binary exponent of \<open>q > 0\<close>: the \<open>e\<close> with \<open>2\<^sup>e \<le> q < 2\<^sup>e\<^sup>+\<^sup>1\<close>.\<close>

definition exponent :: "rat \<Rightarrow> int" where
  "exponent q =
     (if 1 \<le> q then int (log2floor (nat \<lfloor>q\<rfloor>))
      else - int (let n = nat \<lceil>1 / q\<rceil> in if n \<le> 1 then 0 else Suc (log2floor (n - 1))))"

definition roundTiesToEven :: "rat \<Rightarrow> int" where
  "roundTiesToEven x =
     (let f = \<lfloor>x\<rfloor>; d = x - of_int f in
      if d < 1 / 2 then f else if 1 / 2 < d then f + 1 else if even f then f else f + 1)"

definition double :: "rat \<Rightarrow> rat" where
  "double q =
     (if q = 0 then 0
      else let a = \<bar>q\<bar>; k = max (exponent a - 52) (- 1074);
               m = of_int (roundTiesToEven (a / pow2 k)) * pow2 k
           in if q < 0 then - m else m)"

definition fdiv :: "rat \<Rightarrow> rat \<Rightarrow> rat" where
  "fdiv a b = double (a / b)"

definition fmul :: "rat \<Rightarrow> rat \<Rightarrow> rat" where
  "fmul a b = double (a * b)"

definition fadd :: "rat \<Rightarrow> rat \<Rightarrow> rat" where
  "fadd a b = double (a + b)"

text \<open>Decimal digits of a natural number.\<close>

fun digits :: "nat \<Rightarrow> string" where
  "digits n =
     (if n < 10 then [char_of (48 + n)]
      else digits (n div 10) @ [char_of (48 + n mod 10)])"

declare digits.simps [simp del]

text \<open>
  \<open>x.toFixed(1)\<close>: the integer \<open>n\<close> for which \<open>n / 10\<close> is nearest to the exact value
  of \<open>x\<close>, the larger one of two, printed with one decimal and the sign of \<open>x\<close>
  (below \<open>10\<^sup>2\<^sup>1\<close>, where the language switches to exponent notation).
\<close>

definition tenths :: "rat \<Rightarrow> nat" where
  "tenths x = nat \<lfloor>\<bar>x\<bar> * 10 + 1 / 2\<rfloor>"

definition show_tenths :: "nat \<Rightarrow> string" where
  "show_tenths n = digits (n div 10) @ ''.'' @ digits (n mod 10)"

definition toFixed1 :: "rat \<Rightarrow> string" where
  "toFixed1 x = (if x < 0 then ''-'' else '''') @ show_tenths (tenths x)"

section \<open>The lookup tables\<close>

text \<open>
  Strings are byte lists; the accented letters of the source are their two UTF-8 bytes
  (equality of keys is equality of the encoded text).
\<close>

definition a_acute :: string where "a_acute = [CHR 0xC3, CHR 0xA1]"
definition e_acute :: string where "e_acute = [CHR 0xC3, CHR 0xA9]"
definition i_acute :: string where "i_acute = [CHR 0xC3, CHR 0xAD]"

definition stateMapping :: "(pkey \<times> pkey) list" where
  "stateMapping =
     [(KS ''QuintanaRoo'', KS ''Quintana Roo''),
      (KS ''Estado_de_Mexico'', KS (''Estado de M'' @ e_acute @ ''xico'')),
      (KS ''Baja_CaliforniaSur'', KS ''Baja California Sur''),
      (KS ''San_Luis_Potosi'', KS (''San Luis Potos'' @ i_acute)),
      (KS ''Michoacan'', KS (''Michoac'' @ a_acute @ ''n'')),
      (KS ''Queretaro'', KS (''Quer'' @ e_acute @ ''taro'')),
      (KS ''Yucatan'', KS (''Yucat'' @ a_acute @ ''n'')),
      (KS ''Nayarit'', KS ''Nayarit''),
      (KS ''Chiapas'', KS ''Chiapas''),
      (KS ''Chihuahua'', KS ''Chihuahua''),
      (KS ''Guerrero'', KS ''Guerrero''),
      (KS ''Puebla'', KS ''Puebla''),
      (KS ''Jalisco'', KS ''Jalisco''),
      (KS ''Coahuila'', KS ''Coahuila''),
      (KS ''Veracruz'', KS ''Veracruz''),
      (KS ''Hidalgo'', KS ''Hidalgo''),
      (KS ''Morelos'', KS ''Morelos''),
      (KS ''Oaxaca'', KS ''Oaxaca''),
      (KS ''Guanajuato'', KS ''Guanajuato'')]"

definition stateCoordinates :: "(pkey \<times> rat \<times> rat) list" where
  "stateCoordinates =
     [(KS ''Quintana Roo'', 211619 / 10000, - 868515 / 10000),
      (KS (''Estado de M'' @ e_acute @ ''xico''), 194326 / 10000, - 996795 / 10000),
      (KS ''Baja California Sur'', 241442 / 10000, - 1103005 / 10000),
      (KS (''San Luis Potos'' @ i_acute), 221565 / 10000, - 1009855 / 10000),
      (KS (''Michoac'' @ a_acute @ ''n''), 197007 / 10000, - 1011884 / 10000),
      (KS (''Quer'' @ e_acute @ ''taro''), 205888 / 10000, - 1003899 / 10000),
      (KS (''Yucat'' @ a_acute @ ''n''), 209674 / 10000, - 895926 / 10000),
      (KS ''Nayarit'', 217514 / 10000, - 1048455 / 10000),
      (KS ''Chiapas'', 167569 / 10000, - 931292 / 10000),
      (KS ''Chihuahua'', 286353 / 10000, - 1060889 / 10000),
      (KS ''Guerrero'', 174391 / 10000, - 995451 / 10000),
      (KS ''Puebla'', 190414 / 10000, - 982063 / 10000),
      (KS ''Jalisco'', 206597 / 10000, - 1033496 / 10000),
      (KS ''Coahuila'', 254232 / 10000, - 1010053 / 10000),
      (KS ''Veracruz'', 191738 / 10000, - 961342 / 10000),
      (KS ''Hidalgo'', 200911 / 10000, - 987624 / 10000),
      (KS ''Morelos'', 186813 / 10000, - 991013 / 10000),
      (KS ''Oaxaca'', 170732 / 10000, - 967266 / 10000),
      (KS ''Guanajuato'', 210190 / 10000, - 1012574 / 10000)]"

section \<open>The session state\<close>

text \<open>
  A bucket is the object \<open>{1: 0, 2: 0, 3: 0, 4: 0, 5: 0, total: 0}\<close>: its counts by
  polarity key, and its \<open>total\<close>.
\<close>

record bucket =
  counts :: "(pkey \<times> nat) list"
  total_b :: nat

record viewRow =
  originalName :: pkey
  count_v :: nat
  total_v :: nat
  percentage :: string
  coordinates :: "rat \<times> rat"
  allPolarities :: bucket

record sessionStats =
  totalStates :: nat
  totalReviews :: nat
  maxCount :: nat

text \<open>
  One circle marker of the generated map document. The document is text assembled around
  these values; the text itself is not modelled.
\<close>

record marker =
  markerName :: pkey
  center :: "rat \<times> rat"
  radius :: rat
  fillOpacity :: rat

text \<open>The component's state variables, and \<open>srcdoc\<close> of the map frame.\<close>

record session =
  csvData :: "row list"
  processedData :: "(pkey \<times> viewRow) list"
  selectedPolarity :: nat
  fileLoaded :: bool
  loading :: bool
  error :: string
  stats :: sessionStats
  srcdoc :: "marker list"

definition initial :: session where
  "initial =
     \<lparr>csvData = [], processedData = [], selectedPolarity = 3, fileLoaded = False,
      loading = False, error = '''',
      stats = \<lparr>totalStates = 0, totalReviews = 0, maxCount = 0\<rparr>, srcdoc = []\<rparr>"

section \<open>handleFileUpload\<close>

definition requiredColumns :: "string list" where
  "requiredColumns = [''Title'', ''Review'', ''Polarity'', ''Town'', ''Region'', ''Type'']"

text \<open>\<open>Object.keys(results.data[0] || {})\<close>\<close>

definition headers :: "row list \<Rightarrow> string list" where
  "headers data = (case data of [] \<Rightarrow> [] | r # rs \<Rightarrow> map fst r)"

definition missingColumns :: "row list \<Rightarrow> string list" where
  "missingColumns data = filter (\<lambda>col. col \<notin> set (headers data)) requiredColumns"

fun join :: "string list \<Rightarrow> string" where
  "join [] = ''''"
| "join [x] = x"
| "join (x # y # ys) = x @ '', '' @ join (y # ys)"

text \<open>The callback of the row filter.\<close>

definition validRow :: "(string \<Rightarrow> rat option) \<Rightarrow> row \<Rightarrow> bool" where
  "validRow sn r =
     (truthy (field r ''Region'') \<and> truthy (field r ''Polarity'') \<and>
      js_ge sn (field r ''Polarity'') 1 \<and> js_le sn (field r ''Polarity'') 5)"

definition validData :: "(string \<Rightarrow> rat option) \<Rightarrow> row list \<Rightarrow> row list" where
  "validData sn data = filter (validRow sn) data"

text \<open>
  The \<open>complete\<close> callback: both \<open>throw\<close>s end in the \<open>catch\<close>, which stores the
  message; \<open>finally\<close> clears \<open>loading\<close>.
\<close>

definition complete :: "(string \<Rightarrow> rat option) \<Rightarrow> row list \<Rightarrow> session \<Rightarrow> session" where
  "complete sn data s =
     (if length (missingColumns data) > 0
      then s\<lparr>error := ''Columnas faltantes: '' @ join (missingColumns data), loading := False\<rparr>
      else if length (validData sn data) = 0
      then s\<lparr>error := ''No se encontraron datos v'' @ a_acute @ ''lidos en el CSV'',
              loading := False\<rparr>
      else s\<lparr>csvData := validData sn data, fileLoaded := True, loading := False\<rparr>)"

text \<open>The \<open>error\<close> callback of the parser, with the parser's message.\<close>

definition parseError :: "string \<Rightarrow> session \<Rightarrow> session" where
  "parseError msg s = s\<lparr>error := ''Error al leer el archivo: '' @ msg, loading := False\<rparr>"

text \<open>What the parser reports for the chosen file.\<close>

datatype parsed = Complete "row list" | Failed string

text \<open>
  The handler with the parser's callback run to its end; \<open>None\<close> is an event with no
  file.
\<close>

definition handleFileUpload ::
  "(string \<Rightarrow> rat option) \<Rightarrow> parsed option \<Rightarrow> session \<Rightarrow> session" where
  "handleFileUpload sn file s =
     (case file of
        None \<Rightarrow> s
      | Some (Complete data) \<Rightarrow> complete sn data (s\<lparr>loading := True, error := ''''\<rparr>)
      | Some (Failed msg) \<Rightarrow> parseError msg (s\<lparr>loading := True, error := ''''\<rparr>))"

section \<open>processData\<close>

definition emptyBucket :: bucket where
  "emptyBucket = \<lparr>counts = [(KN 1, 0), (KN 2, 0), (KN 3, 0), (KN 4, 0), (KN 5, 0)], total_b = 0\<rparr>"

text \<open>
  \<open>acc[region][polarity] = (acc[region][polarity] || 0) + 1; acc[region].total += 1\<close>.
  The key \<open>total\<close> names the total itself. Counts are natural numbers: they stay far
  below \<open>2\<^sup>5\<^sup>3\<close>, where adding 1 is exact. (A polarity key that names a property
  inherited from \<open>Object.prototype\<close> would read that property; such a text has no numeric
  value, so no row with it passes the row filter.)
\<close>

definition increment :: "pkey \<Rightarrow> bucket \<Rightarrow> bucket" where
  "increment polarity b =
     (let b1 = (if polarity = KS ''total'' then b\<lparr>total_b := total_b b + 1\<rparr>
                else b\<lparr>counts := AList.update polarity
                       ((case map_of (counts b) polarity of None \<Rightarrow> 0 | Some c \<Rightarrow> c) + 1)
                       (counts b)\<rparr>)
      in b1\<lparr>total_b := total_b b1 + 1\<rparr>)"

text \<open>
  The callback of \<open>reduce\<close>. \<open>acc[region]\<close> reads an own property first and an
  inherited one otherwise: for a name of \<open>Object.prototype\<close> the value is truthy, no
  bucket is allocated, and both writes land on that built-in object, so \<open>acc\<close> keeps its
  own properties. (What such a write does to the built-in object is not tracked.)
\<close>

definition regionKey :: "row \<Rightarrow> pkey" where
  "regionKey r = ToPropertyKey (field r ''Region'')"

definition polarityKey :: "row \<Rightarrow> pkey" where
  "polarityKey r = ToPropertyKey (field r ''Polarity'')"

definition reduce_step :: "(pkey \<times> bucket) list \<Rightarrow> row \<Rightarrow> (pkey \<times> bucket) list" where
  "reduce_step acc r =
     (let region = regionKey r; polarity = polarityKey r
      in case map_of acc region of
           Some b \<Rightarrow> AList.update region (increment polarity b) acc
         | None \<Rightarrow>
             if inherited region then acc
             else AList.update region (increment polarity emptyBucket) acc)"

definition grouped :: "row list \<Rightarrow> (pkey \<times> bucket) list" where
  "grouped rows = foldl reduce_step [] rows"

text \<open>
  \<open>stateMapping[region] || region\<close>: every name in the table is a non-empty string. The
  keys looked up here and in \<open>stateCoordinates\<close> come from \<open>grouped\<close>, which has no
  key inherited from \<open>Object.prototype\<close>, so only the tables' own entries are found.
\<close>

definition standardName :: "pkey \<Rightarrow> pkey" where
  "standardName region = (case map_of stateMapping region of None \<Rightarrow> region | Some n \<Rightarrow> n)"

text \<open>\<open>polarityData[selectedPolarity] || 0\<close>\<close>

definition countAt :: "nat \<Rightarrow> bucket \<Rightarrow> nat" where
  "countAt sel polarityData =
     (case map_of (counts polarityData) (KN (of_nat sel)) of None \<Rightarrow> 0 | Some c \<Rightarrow> c)"

definition percentageOf :: "nat \<Rightarrow> nat \<Rightarrow> string" where
  "percentageOf c t =
     (if t > 0 then toFixed1 (fmul (fdiv (of_nat c) (of_nat t)) 100) else ''0.0'')"

definition mkViewRow :: "nat \<Rightarrow> pkey \<Rightarrow> bucket \<Rightarrow> rat \<times> rat \<Rightarrow> viewRow" where
  "mkViewRow sel region polarityData coords =
     \<lparr>originalName = region,
      count_v = countAt sel polarityData,
      total_v = total_b polarityData,
      percentage = percentageOf (countAt sel polarityData) (total_b polarityData),
      coordinates = coords,
      allPolarities = polarityData\<rparr>"

text \<open>
  The body of the \<open>forEach\<close> over \<open>Object.entries(grouped)\<close>, on the three variables it
  updates: \<open>processedForPolarity\<close>, \<open>maxCount\<close> and \<open>totalReviews\<close> (written
  with a prime, apart from the fields of \<open>stats\<close>).
\<close>

definition forEach_step ::
  "nat \<Rightarrow> (pkey \<times> viewRow) list \<times> nat \<times> nat \<Rightarrow> pkey \<times> bucket \<Rightarrow>
   (pkey \<times> viewRow) list \<times> nat \<times> nat" where
  "forEach_step sel st e =
     (case st of (processedForPolarity, maxCount', totalReviews') \<Rightarrow>
      case e of (region, polarityData) \<Rightarrow>
        (case map_of stateCoordinates (standardName region) of
           Some coords \<Rightarrow>
             (AList.update (standardName region) (mkViewRow sel region polarityData coords)
                processedForPolarity,
              max maxCount' (countAt sel polarityData),
              totalReviews' + countAt sel polarityData)
         | None \<Rightarrow> (processedForPolarity, maxCount', totalReviews')))"

definition project ::
  "nat \<Rightarrow> (pkey \<times> bucket) list \<Rightarrow> (pkey \<times> viewRow) list \<times> nat \<times> nat" where
  "project sel g = foldl (forEach_step sel) ([], 0, 0) (object_entries g)"

section \<open>generateFoliumMap\<close>

definition intensity :: "nat \<Rightarrow> viewRow \<Rightarrow> rat" where
  "intensity maxCount' stateData =
     (if maxCount' > 0 then fdiv (of_nat (count_v stateData)) (of_nat maxCount') else 0)"

definition mkMarker :: "nat \<Rightarrow> pkey \<times> viewRow \<Rightarrow> marker" where
  "mkMarker maxCount' e =
     (case e of (stateName, stateData) \<Rightarrow>
        \<lparr>markerName = stateName, center = coordinates stateData,
         radius = fadd 10 (fmul (intensity maxCount' stateData) 20),
         fillOpacity = fadd (double (3 / 10)) (fmul (intensity maxCount' stateData) (double (7 / 10)))\<rparr>)"

definition generateFoliumMap :: "(pkey \<times> viewRow) list \<Rightarrow> nat \<Rightarrow> marker list" where
  "generateFoliumMap data maxCount' = map (mkMarker maxCount') (object_entries data)"

text \<open>
  \<open>processData\<close> reads \<open>csvData\<close> and \<open>selectedPolarity\<close> of the state. Nothing in
  its \<open>try\<close> block throws on these values, so the \<open>catch\<close> is never entered. The map
  frame is taken to be mounted, so that \<open>srcdoc\<close> is assigned.
\<close>

definition processData :: "session \<Rightarrow> session" where
  "processData s =
     (case project (selectedPolarity s) (grouped (csvData s)) of
        (processedForPolarity, maxCount', totalReviews') \<Rightarrow>
          s\<lparr>processedData := processedForPolarity,
            stats := \<lparr>totalStates = length processedForPolarity,
                      totalReviews = totalReviews', maxCount = maxCount'\<rparr>,
            srcdoc := generateFoliumMap processedForPolarity maxCount'\<rparr>)"

text \<open>The effect that runs when \<open>csvData\<close> or \<open>selectedPolarity\<close> has changed.\<close>

definition useEffect :: "session \<Rightarrow> session" where
  "useEffect s = (if length (csvData s) > 0 then processData s else s)"

text \<open>
  An upload event as the user sees it: the handler, and the effect when the handler has
  stored a new \<open>csvData\<close>.
\<close>

definition upload :: "(string \<Rightarrow> rat option) \<Rightarrow> parsed option \<Rightarrow> session \<Rightarrow> session" where
  "upload sn file s =
     (let s' = handleFileUpload sn file s
      in case file of
           Some (Complete data) \<Rightarrow>
             if missingColumns data = [] \<and> validData sn data \<noteq> [] then useEffect s' else s'
         | _ \<Rightarrow> s')"


section \<open>Notions used to state the properties\<close>




text \<open>A region key is mappable when its standard name has coordinates.\<close>

definition mappable :: "pkey \<Rightarrow> bool" where
  "mappable region = (map_of stateCoordinates (standardName region) \<noteq> None)"


text \<open>A row of a well-formed file, with the given region text and polarity value.\<close>

definition csvRow :: "string \<Rightarrow> jsval \<Rightarrow> row" where
  "csvRow region polarity =
     [(''Title'', JStr ''A''), (''Review'', JStr ''good''), (''Polarity'', polarity),
      (''Town'', JStr ''T''), (''Region'', JStr region), (''Type'', JStr ''hotel'')]"


text \<open>
  The row filter as the specification words it: the region is neither empty nor null, the
  polarity is present, and the polarity is an integer from 1 to 5.
\<close>

definition specKeeps :: "row \<Rightarrow> bool" where
  "specKeeps r =
     (field r ''Region'' \<notin> {JUndefined, JNull, JStr ''''} \<and>
      field r ''Polarity'' \<notin> {JUndefined, JNull} \<and>
      field r ''Polarity'' \<in> {JNum 1, JNum 2, JNum 3, JNum 4, JNum 5})"

text \<open>The polarity of the row is one of the integers 1 to 5.\<close>

definition integerPolarity :: "row \<Rightarrow> bool" where
  "integerPolarity r = (field r ''Polarity'' \<in> {JNum 1, JNum 2, JNum 3, JNum 4, JNum 5})"

text \<open>The total of a bucket is the sum of its five counts.\<close>

definition bucketInvariant :: "bucket \<Rightarrow> bool" where
  "bucketInvariant b =
     (total_b b = countAt 1 b + countAt 2 b + countAt 3 b + countAt 4 b + countAt 5 b)"



text \<open>The view row a grouped entry with coordinates gives rise to, under its standard name.\<close>

definition viewOf :: "nat \<Rightarrow> pkey \<times> bucket \<Rightarrow> pkey \<times> viewRow" where
  "viewOf sel e =
     (standardName (fst e),
      mkViewRow sel (fst e) (snd e) (the (map_of stateCoordinates (standardName (fst e)))))"

section \<open>The aggregation in closed form\<close>

lemma grouped_snoc: "grouped (rows @ [r]) = reduce_step (grouped rows) r"
  by (simp add: grouped_def)

lemma increment_counts:
  "map_of (counts (increment p b)) =
     (if p = KS ''total'' then map_of (counts b)
      else (map_of (counts b))(p \<mapsto> (case map_of (counts b) p of None \<Rightarrow> 0 | Some c \<Rightarrow> c) + 1))"
  by (simp add: increment_def Let_def update_conv')

lemma increment_total:
  "total_b (increment p b) = total_b b + (if p = KS ''total'' then 2 else 1)"
  by (simp add: increment_def Let_def)










section \<open>Rounding to a double\<close>

lemma log2floor_bounds: "0 < n \<Longrightarrow> 2 ^ log2floor n \<le> n \<and> n < 2 ^ Suc (log2floor n)"
proof (induction n rule: log2floor.induct)
  case (1 n)
  show ?case
  proof (cases "n < 2")
    case True
    with "1.prems" have "n = 1" by simp
    then show ?thesis by (simp add: log2floor.simps)
  next
    case False
    then have pos: "0 < n div 2" by simp
    from "1.IH"[OF False pos]
    have a: "2 ^ log2floor (n div 2) \<le> n div 2" and b: "n div 2 < 2 ^ Suc (log2floor (n div 2))"
      by simp_all
    have eq: "log2floor n = Suc (log2floor (n div 2))"
      using False by (subst log2floor.simps) simp
    from a have "2 * 2 ^ log2floor (n div 2) \<le> n" by linarith
    moreover from b have "n < 2 * 2 ^ Suc (log2floor (n div 2))" by linarith
    ultimately show ?thesis by (simp add: eq)
  qed
qed

lemma pow2_pos: "0 < pow2 e"
  by (simp add: pow2_def)

lemma pow2_add: "pow2 (a + b) = pow2 a * pow2 b"
proof -
  have p: "pow2 e = 2 powi e" for e
    by (simp add: pow2_def power_int_def field_simps)
  show ?thesis by (simp add: p power_int_add)
qed

lemma pow2_0: "pow2 0 = 1"
  by (simp add: pow2_def)

lemma pow2_nat: "pow2 (int n) = 2 ^ n"
  by (simp add: pow2_def)

lemma pow2_neg: "pow2 (- e) = 1 / pow2 e"
  using pow2_add[of e "- e"] pow2_pos[of e] by (simp add: pow2_0 field_simps)

lemma pow2_mono: "a \<le> b \<Longrightarrow> pow2 a \<le> pow2 b"
proof -
  assume "a \<le> b"
  then obtain n where b: "b = a + int n" by (metis zle_iff_zadd)
  have "(1::rat) \<le> 2 ^ n" by simp
  then show ?thesis using pow2_pos[of a] by (simp add: b pow2_add pow2_nat)
qed

lemma pow2_strict_mono: "a < b \<Longrightarrow> pow2 a < pow2 b"
proof -
  assume "a < b"
  then obtain n where b: "b = a + int (Suc n)"
    by (metis Suc_pred' add.commute zless_iff_Suc_zadd zero_less_Suc)
  have "(1::rat) < 2 ^ Suc n" by (intro one_less_power) simp_all
  then show ?thesis using pow2_pos[of a] by (simp only: b pow2_add pow2_nat) simp
qed

lemma exponent_bounds:
  assumes "0 < q"
  shows "pow2 (exponent q) \<le> q \<and> q < pow2 (exponent q + 1)"
proof (cases "1 \<le> q")
  case True
  let ?n = "nat \<lfloor>q\<rfloor>"
  have n: "0 < ?n" using True by simp
  have e: "exponent q = int (log2floor ?n)" using True by (simp add: exponent_def)
  from log2floor_bounds[OF n] have a: "2 ^ log2floor ?n \<le> ?n" and b: "?n < 2 ^ Suc (log2floor ?n)"
    by simp_all
  have fl: "rat_of_nat ?n \<le> q" using True by (simp add: of_nat_nat)
  from a have a': "rat_of_nat (2 ^ log2floor ?n) \<le> rat_of_nat ?n" by (rule of_nat_mono)
  have lo: "2 ^ log2floor ?n \<le> q" using order_trans[OF a' fl] by simp
  from b have "int ?n + 1 \<le> 2 ^ Suc (log2floor ?n)"
    by (metis of_nat_less_iff of_nat_numeral of_nat_power zless_imp_add1_zle)
  then have "\<lfloor>q\<rfloor> + 1 \<le> 2 ^ Suc (log2floor ?n)" using True by simp
  then have "rat_of_int (\<lfloor>q\<rfloor> + 1) \<le> rat_of_int (2 ^ Suc (log2floor ?n))" by (simp only: of_int_le_iff)
  moreover have "q < rat_of_int (\<lfloor>q\<rfloor> + 1)" by linarith
  ultimately have hi: "q < 2 ^ Suc (log2floor ?n)" by simp
  have "pow2 (int (log2floor ?n) + 1) = 2 ^ Suc (log2floor ?n)"
    using pow2_nat[of "Suc (log2floor ?n)"] by (simp add: add.commute)
  with lo hi show ?thesis by (simp add: e pow2_nat)
next
  case False
  then have q1: "q < 1" by simp
  let ?n = "nat \<lceil>1 / q\<rceil>"
  have inv: "1 < 1 / q" using assms q1 by simp
  then have "1 < \<lceil>1 / q\<rceil>" by (simp only: less_ceiling_iff of_int_1)
  then have c2: "2 \<le> \<lceil>1 / q\<rceil>" by simp
  then have n2: "2 \<le> ?n" by linarith
  let ?k = "Suc (log2floor (?n - 1))"
  have "\<not> ?n \<le> 1" using n2 by linarith
  then have e: "exponent q = - int ?k" using False by (simp only: exponent_def Let_def if_False)
  have m: "0 < ?n - 1" using n2 by linarith
  from log2floor_bounds[OF m] have a: "2 ^ log2floor (?n - 1) \<le> ?n - 1" and b: "?n - 1 < 2 ^ ?k"
    by simp_all
  from b have "?n \<le> 2 ^ ?k" by linarith
  then have "rat_of_nat ?n \<le> rat_of_nat (2 ^ ?k)" by (rule of_nat_mono)
  moreover have "1 / q \<le> rat_of_nat ?n" using c2 by (simp add: of_nat_nat) 
  ultimately have "1 / q \<le> 2 ^ ?k" by simp
  then have lo: "1 / 2 ^ ?k \<le> q" using assms by (simp add: field_simps)
  from a have "2 ^ log2floor (?n - 1) < ?n" using n2 by linarith
  then have "int (2 ^ log2floor (?n - 1)) < \<lceil>1 / q\<rceil>" using c2 by linarith
  then have "rat_of_int (int (2 ^ log2floor (?n - 1))) < 1 / q" by (simp add: less_ceiling_iff)
  then have "2 ^ log2floor (?n - 1) < 1 / q" by simp
  then have hi: "q < 1 / 2 ^ log2floor (?n - 1)" using assms by (simp add: field_simps)
  have "pow2 (- int ?k + 1) = 1 / 2 ^ log2floor (?n - 1)"
    using pow2_neg[of "int (log2floor (?n - 1))"] by (simp add: pow2_nat)
  moreover have "pow2 (- int ?k) = 1 / 2 ^ ?k"
    using pow2_neg[of "int ?k"] by (simp only: pow2_nat)
  ultimately show ?thesis using lo hi by (simp only: e)
qed

lemma roundTiesToEven_cases:
  "roundTiesToEven x = \<lfloor>x\<rfloor> \<and> x - of_int \<lfloor>x\<rfloor> \<le> 1 / 2 \<or>
   roundTiesToEven x = \<lfloor>x\<rfloor> + 1 \<and> 1 / 2 \<le> x - of_int \<lfloor>x\<rfloor>"
  unfolding roundTiesToEven_def Let_def by (simp add: not_less)


lemma roundTiesToEven_of_int: "roundTiesToEven (of_int n) = n"
  by (simp add: roundTiesToEven_def)

lemma roundTiesToEven_le: "x \<le> of_int n \<Longrightarrow> roundTiesToEven x \<le> n"
proof -
  assume a: "x \<le> of_int n"
  then have f: "\<lfloor>x\<rfloor> \<le> n" by (metis floor_mono floor_of_int)
  show ?thesis
  proof (cases "\<lfloor>x\<rfloor> = n")
    case True
    with a have "x = of_int n" by linarith
    then show ?thesis by (simp add: roundTiesToEven_of_int)
  next
    case False
    with f have "\<lfloor>x\<rfloor> + 1 \<le> n" by simp
    with roundTiesToEven_cases[of x] show ?thesis by auto
  qed
qed

lemma roundTiesToEven_ge: "of_int n \<le> x \<Longrightarrow> n \<le> roundTiesToEven x"
proof -
  assume "of_int n \<le> x"
  then have "n \<le> \<lfloor>x\<rfloor>" by (simp add: le_floor_iff)
  with roundTiesToEven_cases[of x] show ?thesis by auto
qed

lemma double_pos:
  "0 < q \<Longrightarrow>
   double q = of_int (roundTiesToEven (q / pow2 (max (exponent q - 52) (- 1074)))) *
              pow2 (max (exponent q - 52) (- 1074))"
  by (simp add: double_def Let_def)

lemma double_0: "double 0 = 0"
  by (simp add: double_def)

lemma double_nonneg: "0 \<le> q \<Longrightarrow> 0 \<le> double q"
proof (cases "q = 0")
  case True
  then show ?thesis by (simp add: double_0)
next
  case False
  assume "0 \<le> q"
  with False have q: "0 < q" by simp
  let ?k = "max (exponent q - 52) (- 1074)"
  have "0 \<le> q / pow2 ?k" using q pow2_pos[of ?k] by simp
  then have "rat_of_int 0 \<le> q / pow2 ?k" by simp
  then have "0 \<le> roundTiesToEven (q / pow2 ?k)" by (rule roundTiesToEven_ge)
  then show ?thesis using pow2_pos[of ?k] by (simp add: double_pos[OF q])
qed


lemma double_le:
  assumes q: "0 < q" and le: "q \<le> of_int m * pow2 j" and m: "m < 2 ^ 53" and j: "- 1074 \<le> j"
  shows "double q \<le> of_int m * pow2 j"
proof -
  let ?e = "exponent q"
  let ?k = "max (?e - 52) (- 1074)"
  from exponent_bounds[OF q] have lo: "pow2 ?e \<le> q" by simp
  have kj: "?k \<le> j"
  proof (rule ccontr)
    assume "\<not> ?k \<le> j"
    with j have "j + 53 \<le> ?e" by simp
    then have "pow2 (j + 53) \<le> pow2 ?e" by (rule pow2_mono)
    moreover have "pow2 (j + 53) = 2 ^ 53 * pow2 j"
      using pow2_add[of j 53] pow2_nat[of 53] by (simp add: mult.commute)
    moreover have "rat_of_int m * pow2 j < 2 ^ 53 * pow2 j"
    proof -
      have "rat_of_int m < rat_of_int (2 ^ 53)" using m by (simp only: of_int_less_iff)
      then show ?thesis using pow2_pos[of j] by simp
    qed
    ultimately show False using lo le by simp
  qed
  then obtain n where jn: "j = ?k + int n" by (metis zle_iff_zadd)
  have pk: "0 < pow2 ?k" by (rule pow2_pos)
  have pj: "pow2 j = 2 ^ n * pow2 ?k"
    using pow2_add[of ?k "int n"] by (simp only: jn[symmetric] pow2_nat mult.commute)
  have "q / pow2 ?k \<le> (of_int m * pow2 j) / pow2 ?k" using le pk by (simp add: divide_right_mono)
  also have "\<dots> = rat_of_int (m * 2 ^ n)" using pk by (simp add: pj)
  finally have "roundTiesToEven (q / pow2 ?k) \<le> m * 2 ^ n" by (rule roundTiesToEven_le)
  then have "rat_of_int (roundTiesToEven (q / pow2 ?k)) \<le> rat_of_int (m * 2 ^ n)"
    by (simp only: of_int_le_iff)
  then have "rat_of_int (roundTiesToEven (q / pow2 ?k)) * pow2 ?k \<le> rat_of_int (m * 2 ^ n) * pow2 ?k"
    using pk by (simp only: mult_le_cancel_right_pos)
  then show ?thesis by (simp add: double_pos[OF q] pj mult.assoc)
qed

lemma double_ge:
  assumes d: "0 < m" and le: "of_int m * pow2 j \<le> q" and m: "m < 2 ^ 53" and j: "- 1074 \<le> j"
  shows "of_int m * pow2 j \<le> double q"
proof -
  have q: "0 < q"
  proof -
    have "0 < rat_of_int m * pow2 j" using d pow2_pos[of j] by simp
    with le show ?thesis by simp
  qed
  let ?e = "exponent q"
  let ?k = "max (?e - 52) (- 1074)"
  have pk: "0 < pow2 ?k" by (rule pow2_pos)
  from exponent_bounds[OF q] have lo: "pow2 ?e \<le> q" by simp
  show ?thesis
  proof (cases "?k \<le> j")
    case True
    then obtain n where jn: "j = ?k + int n" by (metis zle_iff_zadd)
    have pj: "pow2 j = 2 ^ n * pow2 ?k"
      using pow2_add[of ?k "int n"] by (simp only: jn[symmetric] pow2_nat mult.commute)
    have "rat_of_int (m * 2 ^ n) = (of_int m * pow2 j) / pow2 ?k" using pk by (simp add: pj)
    also have "\<dots> \<le> q / pow2 ?k" using le pk by (simp add: divide_right_mono)
    finally have "m * 2 ^ n \<le> roundTiesToEven (q / pow2 ?k)" by (rule roundTiesToEven_ge)
    then have "rat_of_int (m * 2 ^ n) \<le> rat_of_int (roundTiesToEven (q / pow2 ?k))"
      by (simp only: of_int_le_iff)
    then have "rat_of_int (m * 2 ^ n) * pow2 ?k \<le> rat_of_int (roundTiesToEven (q / pow2 ?k)) * pow2 ?k"
      using pk by (simp only: mult_le_cancel_right_pos)
    then show ?thesis by (simp add: double_pos[OF q] pj mult.assoc)
  next
    case False
    with j have k: "?k = ?e - 52" and je: "j + 53 \<le> ?e" by simp_all
    have pe: "pow2 ?e = 2 ^ 52 * pow2 ?k"
      using pow2_add[of "?e - 52" 52] pow2_nat[of 52] by (simp add: k mult.commute)
    have "rat_of_int (2 ^ 52) = pow2 ?e / pow2 ?k" using pk by (simp add: pe)
    also have "\<dots> \<le> q / pow2 ?k" using lo pk by (simp add: divide_right_mono)
    finally have "2 ^ 52 \<le> roundTiesToEven (q / pow2 ?k)" by (rule roundTiesToEven_ge)
    then have "rat_of_int (2 ^ 52) \<le> rat_of_int (roundTiesToEven (q / pow2 ?k))"
      by (simp only: of_int_le_iff)
    then have "rat_of_int (2 ^ 52) * pow2 ?k \<le> rat_of_int (roundTiesToEven (q / pow2 ?k)) * pow2 ?k"
      using pk by (simp only: mult_le_cancel_right_pos)
    then have "pow2 ?e \<le> double q" by (simp add: double_pos[OF q] pe)
    moreover from je have "pow2 (j + 53) \<le> pow2 ?e" by (rule pow2_mono)
    moreover have "pow2 (j + 53) = 2 ^ 53 * pow2 j"
      using pow2_add[of j 53] pow2_nat[of 53] by (simp add: mult.commute)
    moreover have "rat_of_int m * pow2 j < 2 ^ 53 * pow2 j"
    proof -
      have "rat_of_int m < rat_of_int (2 ^ 53)" using m by (simp only: of_int_less_iff)
      then show ?thesis using pow2_pos[of j] by simp
    qed
    ultimately show ?thesis by simp
  qed
qed

section \<open>The percentage is a nearest tenth\<close>


section \<open>The projection\<close>

lemma set_update_subset: "set (AList.update k v al) \<subseteq> insert (k, v) (set al)"
  by (induction al) auto






lemma standardName_KN: "standardName (KN q) = KN q"
  by (simp add: standardName_def stateMapping_def)

lemma coordinates_KN: "map_of stateCoordinates (KN q) = None"
  by (simp add: stateCoordinates_def)

lemma mappable_not_index: "mappable k \<Longrightarrow> \<not> is_array_index k"
  by (cases k) (simp_all add: mappable_def standardName_KN coordinates_KN)

lemma object_entries_mappable:
  "filter (\<lambda>e. mappable (fst e)) (object_entries g) = filter (\<lambda>e. mappable (fst e)) g"
proof -
  have a: "filter (\<lambda>e. mappable (fst e)) (filter (\<lambda>e. is_array_index (fst e)) g) = []"
    by (auto simp: filter_empty_conv dest: mappable_not_index)
  have b: "filter (\<lambda>e. mappable (fst e)) (filter (\<lambda>e. \<not> is_array_index (fst e)) g)
             = filter (\<lambda>e. mappable (fst e)) g"
    by (auto intro!: filter_cong dest: mappable_not_index)
  show ?thesis
    by (simp only: object_entries_def filter_append filter_sort a b sort_key_simps append_Nil)
qed

lemma forEach_step_unmappable: "\<not> mappable (fst e) \<Longrightarrow> forEach_step sel st e = st"
  by (cases st; cases e) (auto simp: forEach_step_def mappable_def split: option.splits)

lemma foldl_forEach_filter:
  "foldl (forEach_step sel) st (filter (\<lambda>e. mappable (fst e)) es) = foldl (forEach_step sel) st es"
  by (induction es arbitrary: st) (simp_all add: forEach_step_unmappable)

lemma project_mappable:
  "project sel g = foldl (forEach_step sel) ([], 0, 0) (filter (\<lambda>e. mappable (fst e)) g)"
  by (simp only: project_def foldl_forEach_filter[symmetric, of sel _ "object_entries g"]
        object_entries_mappable)











section \<open>Further facts about the aggregation and the state\<close>

lemma countAt_increment:
  "countAt p (increment (KN q) b) = countAt p b + (if q = of_nat p then 1 else 0)"
  by (simp add: countAt_def increment_counts)

lemma total_increment_KN: "total_b (increment (KN q) b) = total_b b + 1"
  by (simp add: increment_total)

lemma bucketInvariant_increment:
  assumes "bucketInvariant b" and "q \<in> {1, 2, 3, 4, 5}"
  shows "bucketInvariant (increment (KN q) b)"
  using assms by (auto simp: bucketInvariant_def countAt_increment total_increment_KN)

lemma bucketInvariant_empty: "bucketInvariant emptyBucket"
  by (simp add: bucketInvariant_def emptyBucket_def countAt_def)

lemma integerPolarity_key: "integerPolarity r \<Longrightarrow> \<exists>q \<in> {1, 2, 3, 4, 5}. polarityKey r = KN q"
  by (auto simp: integerPolarity_def polarityKey_def)

lemma reduce_step_invariant:
  assumes acc: "\<forall>e \<in> set acc. bucketInvariant (snd e)" and r: "integerPolarity r"
  shows "\<forall>e \<in> set (reduce_step acc r). bucketInvariant (snd e)"
proof -
  from integerPolarity_key[OF r] obtain q where q: "q \<in> {1, 2, 3, 4, 5}" "polarityKey r = KN q"
    by blast
  show ?thesis
  proof (cases "map_of acc (regionKey r)")
    case None
    show ?thesis
    proof (cases "inherited (regionKey r)")
      case True
      with None acc show ?thesis by (simp add: reduce_step_def Let_def)
    next
      case False
      with None have "reduce_step acc r =
          AList.update (regionKey r) (increment (KN q) emptyBucket) acc"
        by (simp add: reduce_step_def Let_def q)
      with acc bucketInvariant_increment[OF bucketInvariant_empty q(1)]
        set_update_subset[of "regionKey r" "increment (KN q) emptyBucket" acc]
      show ?thesis by auto
    qed
  next
    case (Some b)
    then have "(regionKey r, b) \<in> set acc" by (rule map_of_SomeD)
    with acc have "bucketInvariant b" by auto
    from Some have "reduce_step acc r = AList.update (regionKey r) (increment (KN q) b) acc"
      by (simp add: reduce_step_def Let_def q)
    with acc bucketInvariant_increment[OF \<open>bucketInvariant b\<close> q(1)]
      set_update_subset[of "regionKey r" "increment (KN q) b" acc]
    show ?thesis by auto
  qed
qed

lemma grouped_invariant:
  "\<forall>r \<in> set rows. integerPolarity r \<Longrightarrow> \<forall>e \<in> set (grouped rows). bucketInvariant (snd e)"
proof (induction rows rule: rev_induct)
  case Nil
  then show ?case by (simp add: grouped_def)
next
  case (snoc r rows)
  then have "\<forall>e \<in> set (grouped rows). bucketInvariant (snd e)" and "integerPolarity r"
    by simp_all
  then show ?case unfolding grouped_snoc by (rule reduce_step_invariant)
qed








section \<open>Further facts about view rows, statistics and markers\<close>







lemma set_object_entries: "set (object_entries obj) = set obj"
  by (auto simp: object_entries_def)

lemma double_1: "double 1 = 1" by code_simp
lemma double_10: "double 10 = 10" by code_simp
lemma double_20: "double 20 = 20" by code_simp
lemma double_30: "double 30 = 30" by code_simp
lemma double_half: "double (1 / 2) = 1 / 2" by code_simp

lemma opacity_full: "double (double (3 / 10) + double (double (7 / 10))) = 1" by code_simp

lemma intensity_bounds:
  assumes "count_v v \<le> m"
  shows "0 \<le> intensity m v \<and> intensity m v \<le> 1"
proof (cases "0 < m \<and> 0 < count_v v")
  case False
  then show ?thesis by (auto simp: intensity_def fdiv_def double_0)
next
  case True
  let ?q = "rat_of_nat (count_v v) / rat_of_nat m"
  from True have q: "0 < ?q" by simp
  from True assms have "?q \<le> rat_of_int 1 * pow2 0" by (simp add: pow2_0 divide_le_eq_1)
  from double_le[OF q this] have "double ?q \<le> 1" by (simp add: pow2_0)
  moreover have "0 \<le> double ?q" using q by (intro double_nonneg) simp
  ultimately show ?thesis using True by (simp add: intensity_def fdiv_def)
qed

lemma radius_bounds:
  assumes "0 \<le> i" "i \<le> 1"
  shows "10 \<le> fadd 10 (fmul i 20) \<and> fadd 10 (fmul i 20) \<le> 30"
proof -
  have x0: "0 \<le> fmul i 20" unfolding fmul_def using assms by (intro double_nonneg) simp
  have x20: "fmul i 20 \<le> 20"
  proof (cases "i = 0")
    case True
    then show ?thesis by (simp add: fmul_def double_0)
  next
    case False
    with assms have "0 < i * 20" by simp
    moreover from assms have "i * 20 \<le> rat_of_int 20 * pow2 0" by (simp add: pow2_0)
    ultimately have "double (i * 20) \<le> rat_of_int 20 * pow2 0" by (rule double_le) simp_all
    then show ?thesis by (simp add: fmul_def pow2_0)
  qed
  have "rat_of_int 10 * pow2 0 \<le> 10 + fmul i 20" using x0 by (simp add: pow2_0)
  then have "rat_of_int 10 * pow2 0 \<le> double (10 + fmul i 20)"
    by (intro double_ge) simp_all
  moreover have "double (10 + fmul i 20) \<le> rat_of_int 30 * pow2 0"
    using x0 x20 by (intro double_le) (simp_all add: pow2_0)
  ultimately show ?thesis by (simp add: fadd_def pow2_0)
qed

lemma srcdoc_processData:
  "srcdoc (processData s) =
     generateFoliumMap (processedData (processData s)) (maxCount (stats (processData s)))"
  by (simp add: processData_def split: prod.splits)




lemma mkViewRow_fields:
  "originalName (mkViewRow sel k b c) = k \<and> allPolarities (mkViewRow sel k b c) = b \<and>
   count_v (mkViewRow sel k b c) = countAt sel b \<and> total_v (mkViewRow sel k b c) = total_b b \<and>
   coordinates (mkViewRow sel k b c) = c"
  by (simp add: mkViewRow_def)





lemma update_fresh: "k \<notin> fst ` set al \<Longrightarrow> AList.update k v al = al @ [(k, v)]"
  by (induction al) auto

lemma foldl_forEach_fresh:
  assumes "distinct (map (\<lambda>e. standardName (fst e)) es)"
    and "\<forall>e \<in> set es. mappable (fst e) \<and> standardName (fst e) \<notin> fst ` set P"
  shows "foldl (forEach_step sel) (P, m, t) es =
           (P @ map (viewOf sel) es,
            foldl max m (map (\<lambda>e. countAt sel (snd e)) es),
            t + sum_list (map (\<lambda>e. countAt sel (snd e)) es))"
  using assms
proof (induction es arbitrary: P m t)
  case Nil
  then show ?case by simp
next
  case (Cons e es)
  from Cons.prems(2) have me: "mappable (fst e)" and fe: "standardName (fst e) \<notin> fst ` set P"
    by simp_all
  from me obtain c where c: "map_of stateCoordinates (standardName (fst e)) = Some c"
    by (auto simp: mappable_def)
  have step: "forEach_step sel (P, m, t) e =
      (P @ [viewOf sel e], max m (countAt sel (snd e)), t + countAt sel (snd e))"
    using c update_fresh[OF fe] by (cases e) (simp add: forEach_step_def viewOf_def)
  have d: "distinct (map (\<lambda>e. standardName (fst e)) es)" using Cons.prems(1) by simp
  have fr: "\<forall>x \<in> set es. mappable (fst x) \<and> standardName (fst x) \<notin> fst ` set (P @ [viewOf sel e])"
    using Cons.prems by (auto simp: viewOf_def image_iff)
  show ?case
    by (simp add: step Cons.IH[OF d fr] add.assoc)
qed

lemma stats_match_view_rows_without_collision:
  assumes "distinct (map (\<lambda>e. standardName (fst e))
              (filter (\<lambda>e. mappable (fst e)) (grouped (csvData s))))"
  shows "totalReviews (stats (processData s)) =
           sum_list (map (\<lambda>e. count_v (snd e)) (processedData (processData s))) \<and>
         maxCount (stats (processData s)) =
           foldl max 0 (map (\<lambda>e. count_v (snd e)) (processedData (processData s))) \<and>
         totalStates (stats (processData s)) = length (processedData (processData s))"
proof -
  let ?M = "filter (\<lambda>e. mappable (fst e)) (grouped (csvData s))"
  have "project (selectedPolarity s) (grouped (csvData s)) =
          ([] @ map (viewOf (selectedPolarity s)) ?M,
           foldl max 0 (map (\<lambda>e. countAt (selectedPolarity s) (snd e)) ?M),
           0 + sum_list (map (\<lambda>e. countAt (selectedPolarity s) (snd e)) ?M))"
    unfolding project_mappable by (rule foldl_forEach_fresh[OF assms]) simp
  then show ?thesis
    by (simp add: processData_def viewOf_def mkViewRow_fields comp_def)
qed

section \<open>The row filter (C1)\<close>

text \<open>
  C1, as amended. The filter keeps exactly the rows whose \<open>Region\<close> is truthy and whose
  \<open>Polarity\<close> is truthy with a numeric value from 1 to 5: a number in that range whether
  an integer or not, the boolean \<open>true\<close> (its numeric value is 1), or a non-empty string
  whose numeric value lies in the range. Every other row is dropped, and the rows kept stay
  in their order.
\<close>

theorem C1_validData_by_truthiness:
  "validData sn data =
     filter (\<lambda>r. truthy (field r ''Region'') \<and>
                 (case field r ''Polarity'' of
                    JNum q \<Rightarrow> 1 \<le> q \<and> q \<le> 5
                  | JBool b \<Rightarrow> b
                  | JStr s \<Rightarrow> s \<noteq> [] \<and> (case sn s of None \<Rightarrow> False | Some q \<Rightarrow> 1 \<le> q \<and> q \<le> 5)
                  | _ \<Rightarrow> False)) data"
  unfolding validData_def
  by (rule filter_cong[OF refl])
     (auto simp: validRow_def js_ge_def js_le_def split: jsval.splits option.splits)

text \<open>
  C1, counterexample to the claim as stated: a row whose polarity is 2.5 is kept, although
  2.5 is no integer. (The polarity is a number, so the conversion of strings plays no part;
  here it gives no string a numeric value.)
\<close>

theorem C1_fractional_polarity_kept:
  "validData (\<lambda>s. None) [csvRow ''Jalisco'' (JNum (5 / 2))] = [csvRow ''Jalisco'' (JNum (5 / 2))] \<and>
   \<not> specKeeps (csvRow ''Jalisco'' (JNum (5 / 2)))"
  by (simp add: validData_def validRow_def js_ge_def js_le_def field_def csvRow_def specKeeps_def)

section \<open>Grouping (C2)\<close>




section \<open>Uploads (C3)\<close>



section \<open>Regions without coordinates (C4)\<close>




section \<open>Statistics (C5)\<close>

text \<open>
  C5, the code at a failing input. The file has two rows of \<open>Yucatan\<close> and one row of
  the accented spelling, all of polarity 3; both raw keys have the same standard name. The
  only view row has count 1, while \<open>totalReviews\<close> is 3 and \<open>maxCount\<close> is 2: the
  statistics are neither the sum nor the maximum of the counts of the view rows, and the
  counts of the view rows add up to less than the three valid rows of polarity 3 although
  every region is mappable. (When no two raw keys share a standard name the statistics do
  match the view rows: \<open>stats_match_view_rows_without_collision\<close>.)
\<close>

theorem C5_stats_differ_from_view_rows:
  "map (\<lambda>e. (fst e, count_v (snd e)))
     (processedData (upload (\<lambda>s. None) (Some (Complete
        [csvRow ''Yucatan'' (JNum 3), csvRow ''Yucatan'' (JNum 3),
         csvRow (''Yucat'' @ a_acute @ ''n'') (JNum 3)])) initial))
     = [(KS (''Yucat'' @ a_acute @ ''n''), 1)] \<and>
   stats (upload (\<lambda>s. None) (Some (Complete
        [csvRow ''Yucatan'' (JNum 3), csvRow ''Yucatan'' (JNum 3),
         csvRow (''Yucat'' @ a_acute @ ''n'') (JNum 3)])) initial)
     = \<lparr>totalStates = 1, totalReviews = 3, maxCount = 2\<rparr>"
proof -
  let ?s = "upload (\<lambda>s. None) (Some (Complete
        [csvRow ''Yucatan'' (JNum 3), csvRow ''Yucatan'' (JNum 3),
         csvRow (''Yucat'' @ a_acute @ ''n'') (JNum 3)])) initial"
  have "map (\<lambda>e. (fst e, count_v (snd e))) (processedData ?s) = [(KS (''Yucat'' @ a_acute @ ''n''), 1)]"
    by code_simp
  moreover have "totalStates (stats ?s) = 1" by code_simp
  moreover have "totalReviews (stats ?s) = 3" by code_simp
  moreover have "maxCount (stats ?s) = 2" by code_simp
  ultimately show ?thesis by simp
qed

section \<open>View rows (C6)\<close>



section \<open>Order independence (C7)\<close>



section \<open>Markers (C8)\<close>

text \<open>
  C8. The markers of the map are those of the view rows. For each, the intensity is
  \<open>count / maxCount\<close> when \<open>maxCount > 0\<close> and 0 otherwise, the fill opacity is
  \<open>0.3 + intensity * 0.7\<close> and the radius is \<open>10 + intensity * 20\<close>, in double
  arithmetic, with \<open>maxCount\<close> that of the statistics. A view row whose count is the
  maximum gets radius 30 (and opacity 1), one with half the maximum gets radius 20, and
  every count up to the maximum gives a radius from 10 to 30.
\<close>

theorem C8_marker_geometry:
  "srcdoc (processData s) =
     generateFoliumMap (processedData (processData s)) (maxCount (stats (processData s))) \<and>
   set (generateFoliumMap data m) = mkMarker m ` set data \<and>
   (\<forall>name v.
      markerName (mkMarker m (name, v)) = name \<and>
      intensity m v = (if m > 0 then fdiv (of_nat (count_v v)) (of_nat m) else 0) \<and>
      fillOpacity (mkMarker m (name, v)) = fadd (double (3 / 10)) (fmul (intensity m v) (double (7 / 10))) \<and>
      radius (mkMarker m (name, v)) = fadd 10 (fmul (intensity m v) 20) \<and>
      (0 < m \<and> count_v v = m \<longrightarrow>
         radius (mkMarker m (name, v)) = 30 \<and> fillOpacity (mkMarker m (name, v)) = 1) \<and>
      (0 < m \<and> 2 * count_v v = m \<longrightarrow> radius (mkMarker m (name, v)) = 20) \<and>
      (count_v v \<le> m \<longrightarrow> 10 \<le> radius (mkMarker m (name, v)) \<and> radius (mkMarker m (name, v)) \<le> 30))"
proof (intro conjI allI)
  show "srcdoc (processData s) =
     generateFoliumMap (processedData (processData s)) (maxCount (stats (processData s)))"
    by (rule srcdoc_processData)
next
  show "set (generateFoliumMap data m) = mkMarker m ` set data"
    by (simp add: generateFoliumMap_def set_object_entries)
next
  fix name v
  show "markerName (mkMarker m (name, v)) = name" by (simp add: mkMarker_def)
  show "intensity m v = (if m > 0 then fdiv (of_nat (count_v v)) (of_nat m) else 0)"
    by (simp add: intensity_def)
  show "fillOpacity (mkMarker m (name, v)) =
          fadd (double (3 / 10)) (fmul (intensity m v) (double (7 / 10)))"
    by (simp add: mkMarker_def)
  show "radius (mkMarker m (name, v)) = fadd 10 (fmul (intensity m v) 20)"
    by (simp add: mkMarker_def)
  show "0 < m \<and> count_v v = m \<longrightarrow>
          radius (mkMarker m (name, v)) = 30 \<and> fillOpacity (mkMarker m (name, v)) = 1"
    using opacity_full
    by (simp add: mkMarker_def intensity_def fdiv_def fmul_def fadd_def double_1 double_20 double_30)
  show "0 < m \<and> 2 * count_v v = m \<longrightarrow> radius (mkMarker m (name, v)) = 20"
  proof
    assume a: "0 < m \<and> 2 * count_v v = m"
    then have h: "rat_of_nat (count_v v) / rat_of_nat m = 1 / 2" by auto
    from a have "intensity m v = double (rat_of_nat (count_v v) / rat_of_nat m)"
      by (simp add: intensity_def fdiv_def)
    then have i: "intensity m v = 1 / 2" by (simp only: h double_half)
    have "radius (mkMarker m (name, v)) = fadd 10 (fmul (1 / 2) 20)"
      by (simp only: mkMarker_def prod.case marker.simps i)
    then show "radius (mkMarker m (name, v)) = 20"
      by (simp add: fmul_def fadd_def double_10 double_20)
  qed
  show "count_v v \<le> m \<longrightarrow> 10 \<le> radius (mkMarker m (name, v)) \<and> radius (mkMarker m (name, v)) \<le> 30"
    using radius_bounds[of "intensity m v"] intensity_bounds[of v m] by (simp add: mkMarker_def)
qed

text \<open>
  C8, witness: ten rows of one region and five of another at the selected polarity; the
  radii are 30 and 20.
\<close>

theorem C8_marker_geometry_witness:
  "map (\<lambda>e. (fst e, count_v (snd e)))
     (processedData (processData (initial\<lparr>csvData :=
        replicate 10 (csvRow ''Jalisco'' (JNum 3)) @ replicate 5 (csvRow ''Oaxaca'' (JNum 3))\<rparr>)))
     = [(KS ''Jalisco'', 10), (KS ''Oaxaca'', 5)] \<and>
   maxCount (stats (processData (initial\<lparr>csvData :=
        replicate 10 (csvRow ''Jalisco'' (JNum 3)) @ replicate 5 (csvRow ''Oaxaca'' (JNum 3))\<rparr>))) = 10 \<and>
   map (\<lambda>k. (markerName k, radius k))
     (srcdoc (processData (initial\<lparr>csvData :=
        replicate 10 (csvRow ''Jalisco'' (JNum 3)) @ replicate 5 (csvRow ''Oaxaca'' (JNum 3))\<rparr>)))
     = [(KS ''Jalisco'', 30), (KS ''Oaxaca'', 20)] \<and>
   set (srcdoc (processData (initial\<lparr>csvData :=
        replicate 10 (csvRow ''Jalisco'' (JNum 3)) @ replicate 5 (csvRow ''Oaxaca'' (JNum 3))\<rparr>)))
     = mkMarker 10 ` set (processedData (processData (initial\<lparr>csvData :=
        replicate 10 (csvRow ''Jalisco'' (JNum 3)) @ replicate 5 (csvRow ''Oaxaca'' (JNum 3))\<rparr>)))"
proof -
  let ?s = "processData (initial\<lparr>csvData :=
        replicate 10 (csvRow ''Jalisco'' (JNum 3)) @ replicate 5 (csvRow ''Oaxaca'' (JNum 3))\<rparr>)"
  have a: "map (\<lambda>e. (fst e, count_v (snd e))) (processedData ?s)
     = [(KS ''Jalisco'', 10), (KS ''Oaxaca'', 5)]" by code_simp
  have b: "maxCount (stats ?s) = 10" by code_simp
  have c: "map (\<lambda>k. (markerName k, radius k)) (srcdoc ?s)
     = [(KS ''Jalisco'', 30), (KS ''Oaxaca'', 20)]" by code_simp
  have "srcdoc ?s = generateFoliumMap (processedData ?s) 10"
    using srcdoc_processData[of "initial\<lparr>csvData :=
        replicate 10 (csvRow ''Jalisco'' (JNum 3)) @ replicate 5 (csvRow ''Oaxaca'' (JNum 3))\<rparr>"]
    by (simp only: b)
  with C8_marker_geometry[of _ "processedData ?s" 10]
  have "set (srcdoc ?s) = mkMarker 10 ` set (processedData ?s)" by simp
  with a b c show ?thesis by blast
qed

section \<open>Switching the polarity (C9)\<close>



section \<open>The bucket invariant (C10)\<close>

text \<open>
  C10. When the polarity of every row is one of the integers 1 to 5, the total of every
  bucket of the aggregation is the sum of its five counts. The invariant holds of the
  empty bucket, every step of the aggregation on such a row preserves it, and so it holds
  of the accumulator after every row along the way.
\<close>

theorem C10_total_is_sum_of_counts:
  assumes "\<forall>r \<in> set rows. integerPolarity r"
  shows "(\<forall>e \<in> set (grouped rows). bucketInvariant (snd e)) \<and>
         (\<forall>n. n \<le> length rows \<longrightarrow>
              (\<forall>e \<in> set (foldl reduce_step [] (take n rows)). bucketInvariant (snd e))) \<and>
         (\<forall>acc r. (\<forall>e \<in> set acc. bucketInvariant (snd e)) \<and> integerPolarity r \<longrightarrow>
              (\<forall>e \<in> set (reduce_step acc r). bucketInvariant (snd e))) \<and>
         bucketInvariant emptyBucket"
proof (intro conjI)
  show "\<forall>e \<in> set (grouped rows). bucketInvariant (snd e)"
    using assms by (rule grouped_invariant)
  show "\<forall>n. n \<le> length rows \<longrightarrow>
              (\<forall>e \<in> set (foldl reduce_step [] (take n rows)). bucketInvariant (snd e))"
  proof (intro allI impI)
    fix n
    have "\<forall>r \<in> set (take n rows). integerPolarity r"
      using assms by (meson in_set_takeD)
    then show "\<forall>e \<in> set (foldl reduce_step [] (take n rows)). bucketInvariant (snd e)"
      using grouped_invariant[of "take n rows"] by (simp add: grouped_def)
  qed
  show "\<forall>acc r. (\<forall>e \<in> set acc. bucketInvariant (snd e)) \<and> integerPolarity r \<longrightarrow>
              (\<forall>e \<in> set (reduce_step acc r). bucketInvariant (snd e))"
    using reduce_step_invariant by blast
  show "bucketInvariant emptyBucket" by (rule bucketInvariant_empty)
qed

text \<open>C10, witness: three rows over two regions.\<close>

theorem C10_total_is_sum_of_counts_witness:
  "list_all integerPolarity
     [csvRow ''Jalisco'' (JNum 5), csvRow ''Oaxaca'' (JNum 3), csvRow ''Jalisco'' (JNum 3)] \<and>
   list_all (\<lambda>e. bucketInvariant (snd e))
     (grouped [csvRow ''Jalisco'' (JNum 5), csvRow ''Oaxaca'' (JNum 3), csvRow ''Jalisco'' (JNum 3)]) \<and>
   map (\<lambda>e. (fst e, total_b (snd e)))
     (grouped [csvRow ''Jalisco'' (JNum 5), csvRow ''Oaxaca'' (JNum 3), csvRow ''Jalisco'' (JNum 3)]) =
     [(KS ''Jalisco'', 2), (KS ''Oaxaca'', 1)]"
proof -
  let ?rows = "[csvRow ''Jalisco'' (JNum 5), csvRow ''Oaxaca'' (JNum 3), csvRow ''Jalisco'' (JNum 3)]"
  have h: "\<forall>r \<in> set ?rows. integerPolarity r"
    by (simp add: integerPolarity_def field_def csvRow_def)
  from C10_total_is_sum_of_counts[OF h]
  have "\<forall>e \<in> set (grouped ?rows). bucketInvariant (snd e)" by blast
  then have "list_all (\<lambda>e. bucketInvariant (snd e)) (grouped ?rows)" by (simp only: list_all_iff)
  moreover have "map (\<lambda>e. (fst e, total_b (snd e))) (grouped ?rows) =
     [(KS ''Jalisco'', 2), (KS ''Oaxaca'', 1)]" by code_simp
  moreover from h have "list_all integerPolarity ?rows" by (simp only: list_all_iff)
  ultimately show ?thesis by simp
qed

end
